theory Spec2Isabelle
  imports Main
begin

section \<open>The JavaScript primitives used by \<open>src/utils/tools.ts\<close>\<close>

text \<open>
  The two functions under study, \<open>sliceTextByRange\<close> and \<open>replaceTextByRange\<close>, are built
  from \<open>String.prototype.split\<close>, \<open>String.prototype.slice\<close>, \<open>Array.prototype.slice\<close>,
  \<open>Array.prototype.join\<close> and array indexing. A JavaScript string is a sequence of code
  units, modelled as a \<open>string\<close> (one \<open>char\<close> per code unit); a \<open>number\<close> used as an index is
  modelled as an \<open>int\<close>, so that negative indices are inputs of the model (fractional
  numbers, \<open>NaN\<close> and the infinities are not).

  The only way either function can fail is a method call on \<open>undefined\<close>: the non-null
  assertion \<open>lines[i]!\<close> is erased by the compiler, and \<open>undefined.slice(...)\<close> raises a
  \<open>TypeError\<close>.
\<close>

datatype error = TypeError

text \<open>
  \<open>xs.slice(b, e)\<close> on a string or an array: a negative index counts from the end, every
  index is clamped into \<open>[0, length]\<close>, a missing end is the length, and an end that is not
  after the start gives the empty result.
\<close>

definition relative_index :: "int \<Rightarrow> int \<Rightarrow> int" where
  "relative_index len i = (if i < 0 then max (len + i) 0 else min i len)"

definition js_slice :: "'a list \<Rightarrow> int \<Rightarrow> int option \<Rightarrow> 'a list" where
  "js_slice xs b e =
     (let len = int (length xs);
          from = relative_index len b;
          final = (case e of None \<Rightarrow> len | Some e' \<Rightarrow> relative_index len e')
      in take (nat (final - from)) (drop (nat from) xs))"

text \<open>\<open>xs[i]\<close>: the element when \<open>i\<close> is an index of the array, \<open>undefined\<close> otherwise.\<close>

definition js_index :: "'a list \<Rightarrow> int \<Rightarrow> 'a option" where
  "js_index xs i = (if 0 \<le> i \<and> i < int (length xs) then Some (xs ! nat i) else None)"

text \<open>\<open>rows.join(sep)\<close> on an array of strings.\<close>

fun js_join :: "string \<Rightarrow> string list \<Rightarrow> string" where
  "js_join sep [] = []"
| "js_join sep [r] = r"
| "js_join sep (r # r' # rs) = r @ sep @ js_join sep (r' # rs)"

text \<open>
  \<open>text.split(sep)\<close> with a string separator and no limit. For a non-empty separator the
  text is scanned from the left; at each position where the separator occurs the row
  collected so far is closed and the scan resumes after the separator; the remainder is
  the last row. \<open>split_scan sep row rest\<close> is that scan with \<open>row\<close> the code units
  collected since the last separator. With the empty separator the result is the array of
  the single code units, which is empty for the empty text; \<open>js_split\<close> calls the scan with
  a non-empty separator only, and the test \<open>sep \<noteq> []\<close> in the scan is there for its
  termination.
\<close>

function split_scan :: "string \<Rightarrow> string \<Rightarrow> string \<Rightarrow> string list" where
  "split_scan sep row [] = [row]"
| "split_scan sep row (c # cs) =
     (if sep \<noteq> [] \<and> take (length sep) (c # cs) = sep
      then row # split_scan sep [] (drop (length sep) (c # cs))
      else split_scan sep (row @ [c]) cs)"
  by pat_completeness auto
termination
  by (relation "measure (\<lambda>(sep, row, rest). length rest)") auto

definition js_split :: "string \<Rightarrow> string \<Rightarrow> string list" where
  "js_split text sep = (if sep = [] then map (\<lambda>c. [c]) text else split_scan sep [] text)"

section \<open>Positions, ranges and the two operations\<close>

record Position =
  line :: int
  character :: int

record Range =
  start :: Position
  end_pos :: Position

text \<open>
  \<open>sliceTextByRange\<close> returns a string, or an array of rows when \<open>returnRows\<close> is true.
\<close>

datatype sliced = Text string | Rows "string list"

text \<open>
  The optional parameters are options: a missing \<open>eol\<close> is \<open>"\n"\<close>, a missing
  \<open>returnRows\<close> is \<open>false\<close>.
\<close>

definition eol_or_default :: "string option \<Rightarrow> string" where
  "eol_or_default eol = (case eol of None \<Rightarrow> ''\<newline>'' | Some e \<Rightarrow> e)"

definition sliceTextByRange ::
  "string \<Rightarrow> Range \<Rightarrow> string option \<Rightarrow> bool option \<Rightarrow> error + sliced" where
  "sliceTextByRange text rng eol returnRows =
     (let returnRows' = (case returnRows of None \<Rightarrow> False | Some b \<Rightarrow> b);
          lines = js_split text (eol_or_default eol)
      in case js_index lines (line (start rng)) of
           None \<Rightarrow> Inl TypeError
         | Some startRow \<Rightarrow>
             (let startLine = js_slice startRow (character (start rng)) None
              in if line (start rng) = line (end_pos rng)
                 then Inr (if returnRows' then Rows [startLine] else Text startLine)
                 else (case js_index lines (line (end_pos rng)) of
                         None \<Rightarrow> Inl TypeError
                       | Some endRow \<Rightarrow>
                           (let endLine = js_slice endRow 0 (Some (character (end_pos rng)));
                                rows = [startLine]
                                  @ js_slice lines (line (start rng) + 1)
                                      (Some (line (end_pos rng)))
                                  @ [endLine]
                            in Inr (if returnRows' then Rows rows
                                    else Text (js_join (eol_or_default eol) rows))))))"

definition replaceTextByRange ::
  "string \<Rightarrow> Range \<Rightarrow> string \<Rightarrow> string option \<Rightarrow> error + string" where
  "replaceTextByRange text rng newText eol =
     (let lines = js_split text (eol_or_default eol)
      in case js_index lines (line (start rng)) of
           None \<Rightarrow> Inl TypeError
         | Some startLine \<Rightarrow>
             if line (start rng) = line (end_pos rng)
             then Inr (js_join (eol_or_default eol)
                    (js_slice lines 0 (Some (line (start rng)))
                     @ [js_slice startLine 0 (Some (character (start rng))) @ newText
                          @ js_slice startLine (character (end_pos rng)) None]
                     @ js_slice lines (line (end_pos rng) + 1) None))
             else (case js_index lines (line (end_pos rng)) of
                     None \<Rightarrow> Inl TypeError
                   | Some endLine \<Rightarrow>
                       Inr (js_join (eol_or_default eol)
                         (js_slice lines 0 (Some (line (start rng)))
                          @ [js_slice startLine 0 (Some (character (start rng))) @ newText]
                          @ js_slice lines (line (start rng) + 1) (Some (line (end_pos rng)))
                          @ [js_slice endLine (character (end_pos rng)) None]))))"

text \<open>The object literal \<open>{start: {line: sl, character: sc}, end: {line: el, character: ec}}\<close>.\<close>

definition mk_range :: "int \<Rightarrow> int \<Rightarrow> int \<Rightarrow> int \<Rightarrow> Range" where
  "mk_range sl sc el ec =
     \<lparr>start = \<lparr>line = sl, character = sc\<rparr>, end_pos = \<lparr>line = el, character = ec\<rparr>\<rparr>"

section \<open>Notions used to state the properties\<close>

text \<open>
  Modelled from the spec: the type \<open>EOL\<close> of the parameter \<open>eol\<close> is imported from
  \<open>@/types/lsp\<close>, which is not among the sources. The spec calls it the line terminator,
  "the string used to delimit rows in a buffer (commonly \<open>"\n"\<close> or \<open>"\r\n"\<close>)": a
  terminator is a non-empty string.
\<close>

definition is_EOL :: "string \<Rightarrow> bool" where
  "is_EOL e \<longleftrightarrow> e \<noteq> []"

text \<open>
  The number of occurrences of \<open>sep\<close> in a string: the number of positions at which \<open>sep\<close>
  starts.
\<close>

fun occurrences :: "string \<Rightarrow> string \<Rightarrow> nat" where
  "occurrences sep [] = 0"
| "occurrences sep (c # cs) =
     (if take (length sep) (c # cs) = sep then 1 else 0) + occurrences sep cs"

text \<open>
  A separator that cannot overlap itself: it is not empty, and none of its proper
  non-empty suffixes is a prefix of it. The terminators \<open>"\n"\<close>, \<open>"\r"\<close> and \<open>"\r\n"\<close> are
  such separators. Two occurrences of such a separator never share a code unit.
\<close>

definition no_self_overlap :: "string \<Rightarrow> bool" where
  "no_self_overlap sep \<longleftrightarrow>
     sep \<noteq> [] \<and> list_all (\<lambda>j. take (length sep - j) sep \<noteq> drop j sep) [1..<length sep]"

section \<open>Facts about the primitives\<close>

lemma mk_range_sel [simp]:
  "line (start (mk_range sl sc el ec)) = sl"
  "character (start (mk_range sl sc el ec)) = sc"
  "line (end_pos (mk_range sl sc el ec)) = el"
  "character (end_pos (mk_range sl sc el ec)) = ec"
  by (simp_all add: mk_range_def)

text \<open>With indices that are natural numbers, \<open>slice\<close> is \<open>take\<close> and \<open>drop\<close>.\<close>

lemma js_slice_from_nat: "js_slice xs (int a) None = drop a xs"
  by (auto simp: js_slice_def Let_def relative_index_def min_def)

lemma js_slice_upto_nat: "js_slice xs 0 (Some (int b)) = take b xs"
  by (auto simp: js_slice_def Let_def relative_index_def min_def)

lemma js_slice_between_nat: "js_slice xs (int a) (Some (int b)) = take (b - a) (drop a xs)"
  by (auto simp: js_slice_def Let_def relative_index_def min_def nat_diff_distrib')

lemma js_slice_lines_after: "js_slice xs (int a + 1) None = drop (Suc a) xs"
  using js_slice_from_nat [of xs "Suc a"] by (simp add: add.commute)

lemma js_slice_lines_between:
  "js_slice xs (int a + 1) (Some (int b)) = take (b - Suc a) (drop (Suc a) xs)"
  using js_slice_between_nat [of xs "Suc a" b] by (simp add: add.commute)

lemma js_index_nat: "js_index xs (int i) = (if i < length xs then Some (xs ! i) else None)"
  by (simp add: js_index_def)

text \<open>Joining the rows of a split gives the text back, for every separator.\<close>

lemma js_join_Cons: "rs \<noteq> [] \<Longrightarrow> js_join sep (r # rs) = r @ sep @ js_join sep rs"
  by (cases rs) simp_all

lemma split_scan_not_Nil: "split_scan sep row rest \<noteq> []"
  by (induction sep row rest rule: split_scan.induct) auto

lemma join_split_scan: "js_join sep (split_scan sep row rest) = row @ rest"
proof (induction sep row rest rule: split_scan.induct)
  case (1 sep row)
  show ?case by simp
next
  case (2 sep row c cs)
  show ?case
  proof (cases "sep \<noteq> [] \<and> take (length sep) (c # cs) = sep")
    case True
    have "take (length sep) (c # cs) @ drop (length sep) (c # cs) = c # cs"
      by (rule append_take_drop_id)
    with True 2 show ?thesis
      by (simp add: js_join_Cons split_scan_not_Nil del: append_take_drop_id)
  next
    case False
    with 2 show ?thesis by auto
  qed
qed

lemma join_chars: "js_join [] (map (\<lambda>c. [c]) s) = s"
  by (induction s rule: induct_list012) simp_all

lemma join_split: "js_join sep (js_split s sep) = s"
  by (simp add: js_split_def join_split_scan join_chars)

lemma split_empty: "sep \<noteq> [] \<Longrightarrow> js_split [] sep = [[]]"
  by (simp add: js_split_def)

text \<open>
  With a separator that cannot overlap itself, the scan of \<open>split\<close> finds every
  occurrence: the rows are one more than the occurrences, the occurrences in a join are
  those in the rows plus the separators between them, and no row of a split contains the
  separator.
\<close>

lemma occurrences_char: "occurrences [c] s = count_list s c"
  by (induction s) auto

lemma no_self_overlapD:
  assumes "no_self_overlap sep" and "0 < j" and "j < length sep"
  shows "take (length sep - j) sep \<noteq> drop j sep"
  using assms by (simp add: no_self_overlap_def list_all_iff)

lemma no_overlapping_occurrence:
  assumes nso: "no_self_overlap sep" and at0: "take (length sep) s = sep"
    and j: "0 < j" "j < length sep"
  shows "take (length sep) (drop j s) \<noteq> sep"
proof
  assume atj: "take (length sep) (drop j s) = sep"
  have "drop j sep = drop j (take (length sep) s)"
    using at0 by simp
  also have "\<dots> = take (length sep - j) (drop j s)"
    by (simp add: drop_take)
  also have "\<dots> = take (length sep - j) (take (length sep) (drop j s))"
    by (simp add: min_def)
  also have "\<dots> = take (length sep - j) sep"
    using atj by simp
  finally show False
    using no_self_overlapD [OF nso j] by simp
qed

lemma occurrences_skip:
  assumes nso: "no_self_overlap sep" and at0: "take (length sep) s = sep"
  shows "0 < j \<Longrightarrow> j \<le> length sep \<Longrightarrow> occurrences sep (drop j s) = occurrences sep (drop (length sep) s)"
proof (induction "length sep - j" arbitrary: j)
  case 0
  then show ?case by simp
next
  case (Suc d)
  then have j: "0 < j" "j < length sep" by simp_all
  have "length s \<ge> length sep"
    using at0 by (metis length_take min.cobounded1 min_def order_refl)
  then have "drop j s = s ! j # drop (Suc j) s"
    using j by (simp add: Cons_nth_drop_Suc)
  then have "occurrences sep (drop j s) = occurrences sep (drop (Suc j) s)"
    using no_overlapping_occurrence [OF nso at0 j]
    by (metis add_0 occurrences.simps(2))
  moreover have "occurrences sep (drop (Suc j) s) = occurrences sep (drop (length sep) s)"
    using Suc.hyps(1) [of "Suc j"] Suc.hyps(2) j by simp
  ultimately show ?case by simp
qed

lemma occurrences_at_match:
  assumes nso: "no_self_overlap sep" and at0: "take (length sep) (c # cs) = sep"
  shows "occurrences sep (c # cs) = Suc (occurrences sep (drop (length sep) (c # cs)))"
proof -
  have "sep \<noteq> []" using nso by (simp add: no_self_overlap_def)
  then have "0 < (1::nat)" "1 \<le> length sep" by (simp_all add: Suc_leI)
  from occurrences_skip [OF nso at0 this]
  show ?thesis using at0 by simp
qed

lemma length_split_scan_occurrences:
  "no_self_overlap sep \<Longrightarrow> length (split_scan sep row rest) = Suc (occurrences sep rest)"
proof (induction sep row rest rule: split_scan.induct)
  case (1 sep row)
  show ?case by simp
next
  case (2 sep row c cs)
  show ?case
  proof (cases "sep \<noteq> [] \<and> take (length sep) (c # cs) = sep")
    case True
    then show ?thesis
      using 2 occurrences_at_match [of sep c cs] by simp
  next
    case False
    moreover have "sep \<noteq> []" using 2(3) by (simp add: no_self_overlap_def)
    ultimately show ?thesis using 2 by simp
  qed
qed

lemma length_split_occurrences:
  "no_self_overlap sep \<Longrightarrow> length (js_split s sep) = Suc (occurrences sep s)"
  by (simp add: js_split_def length_split_scan_occurrences no_self_overlap_def)

lemma occurrences_append_sep:
  assumes nso: "no_self_overlap sep"
  shows "occurrences sep (x @ sep @ y) = occurrences sep x + Suc (occurrences sep y)"
proof (induction x)
  case Nil
  have ne: "sep \<noteq> []" using nso by (simp add: no_self_overlap_def)
  then obtain c cs where s: "sep @ y = c # cs" by (cases sep) auto
  have "take (length sep) (c # cs) = sep"
    using s [symmetric] by simp
  from occurrences_at_match [OF nso this] show ?case
    using s [symmetric] by simp
next
  case (Cons a x)
  let ?s = "(a # x) @ sep @ y"
  have "(take (length sep) ?s = sep) \<longleftrightarrow> (take (length sep) (a # x) = sep)"
  proof (cases "length sep \<le> length (a # x)")
    case True
    then have "take (length sep) ((a # x) @ (sep @ y)) = take (length sep) (a # x)"
      by (subst take_append) simp
    then show ?thesis by simp
  next
    case False
    then have j: "0 < length (a # x)" "length (a # x) < length sep" by simp_all
    have r: "take (length sep) (a # x) \<noteq> sep"
      using j by (metis length_take min.strict_order_iff min.commute nat_neq_iff)
    have "take (length sep) ?s \<noteq> sep"
    proof
      assume at0: "take (length sep) ?s = sep"
      have "take (length sep) (drop (length (a # x)) ?s) = sep"
        by simp
      with no_overlapping_occurrence [OF nso at0 j] show False by blast
    qed
    with r show ?thesis by blast
  qed
  with Cons show ?case by simp
qed

lemma occurrences_join:
  assumes nso: "no_self_overlap sep"
  shows "occurrences sep (js_join sep rows)
    = (\<Sum>r\<leftarrow>rows. occurrences sep r) + (length rows - 1)"
  by (induction rows rule: induct_list012) (simp_all add: occurrences_append_sep [OF nso])

lemma rows_without_sep:
  assumes nso: "no_self_overlap sep" and r: "r \<in> set (js_split s sep)"
  shows "occurrences sep r = 0"
proof -
  let ?rows = "js_split s sep"
  have "occurrences sep s = (\<Sum>r\<leftarrow>?rows. occurrences sep r) + (length ?rows - 1)"
    using occurrences_join [OF nso, of ?rows] by (simp add: join_split)
  then have "(\<Sum>r\<leftarrow>?rows. occurrences sep r) = 0"
    by (simp add: length_split_occurrences [OF nso])
  with r show ?thesis
    by (simp add: sum_list_eq_0_iff)
qed

lemma occurrences_drop_le: "occurrences sep (drop n r) \<le> occurrences sep r"
proof (induction r arbitrary: n)
  case Nil
  show ?case by simp
next
  case (Cons a r)
  show ?case
  proof (cases n)
    case 0
    then show ?thesis by simp
  next
    case (Suc m)
    then show ?thesis using Cons [of m] by simp
  qed
qed

lemma occurrence_in_take:
  assumes "take (length sep) (take n xs) = sep"
  shows "take (length sep) xs = sep"
proof -
  have "length (take (length sep) (take n xs)) = length sep"
    using assms by simp
  then have "length sep \<le> n"
    by (simp add: min_def split: if_splits)
  then show ?thesis
    using assms by (simp add: min_def)
qed

lemma occurrences_take_le: "occurrences sep (take n r) \<le> occurrences sep r"
proof (induction r arbitrary: n)
  case Nil
  show ?case by simp
next
  case (Cons a r)
  show ?case
  proof (cases n)
    case 0
    then show ?thesis by simp
  next
    case (Suc m)
    have "take (length sep) (take (Suc m) (a # r)) = sep \<Longrightarrow> take (length sep) (a # r) = sep"
      by (rule occurrence_in_take)
    then show ?thesis
      using Cons [of m] Suc by (auto simp del: take_Suc_Cons simp add: take_Suc_Cons [of m a r])
  qed
qed

lemma occurrences_take_zero: "occurrences sep r = 0 \<Longrightarrow> occurrences sep (take n r) = 0"
  using occurrences_take_le [of sep n r] by simp

lemma occurrences_drop_zero: "occurrences sep r = 0 \<Longrightarrow> occurrences sep (drop n r) = 0"
  using occurrences_drop_le [of sep n r] by simp

section \<open>Slicing\<close>

text \<open>
  Claim C1. A range within one row is to be sliced to the substring between
  \<open>start.character\<close> and \<open>end.character\<close>, so that slicing \<open>"hello world"\<close> from \<open>(0,0)\<close> to
  \<open>(0,5)\<close> gives \<open>"hello"\<close>. The function returns on \<open>start.line === end.line\<close> before it
  reads \<open>end.character\<close>: the result is the row from \<open>start.character\<close> to its end, here the
  whole of \<open>"hello world"\<close>.
\<close>

theorem slice_single_line_ignores_end_character:
  "sliceTextByRange ''hello world'' (mk_range 0 0 0 5) (Some ''\<newline>'') None
     = Inr (Text ''hello world'')
   \<and> sliceTextByRange ''hello world'' (mk_range 0 0 0 5) (Some ''\<newline>'') (Some True)
     = Inr (Rows [''hello world''])"
  by code_simp

text \<open>
  Claim C8. For a range in bounds with \<open>start.line < end.line\<close>, the slice is the start row
  from \<open>start.character\<close> on, every row strictly between the two lines unchanged, and the
  first \<open>end.character\<close> code units of the end row: as that sequence of rows when
  \<open>returnRows\<close> is true, joined with \<open>eol\<close> otherwise.
\<close>

theorem slice_multi_line:
  assumes "rows = js_split text (eol_or_default eol)"
    and "sl < el" and "el < length rows"
    and "sc \<le> length (rows ! sl)" and "ec \<le> length (rows ! el)"
    and "sel = [drop sc (rows ! sl)] @ map (\<lambda>i. rows ! i) [Suc sl ..< el] @ [take ec (rows ! el)]"
  shows "sliceTextByRange text (mk_range (int sl) (int sc) (int el) (int ec)) eol (Some True)
      = Inr (Rows sel)
    \<and> sliceTextByRange text (mk_range (int sl) (int sc) (int el) (int ec)) eol (Some False)
      = Inr (Text (js_join (eol_or_default eol) sel))
    \<and> sliceTextByRange text (mk_range (int sl) (int sc) (int el) (int ec)) eol None
      = Inr (Text (js_join (eol_or_default eol) sel))"
proof -
  have mid: "take (el - Suc sl) (drop (Suc sl) rows) = map (\<lambda>i. rows ! i) [Suc sl ..< el]"
    using assms(2,3) by (intro nth_equalityI) simp_all
  show ?thesis
    using assms mid
    by (simp add: sliceTextByRange_def Let_def js_index_nat js_slice_upto_nat
      js_slice_from_nat js_slice_lines_between)
qed

theorem slice_multi_line_witness:
  "js_split ''line1\<newline>line2\<newline>line3'' (eol_or_default (Some ''\<newline>''))
     = [''line1'', ''line2'', ''line3'']
   \<and> (0::nat) < 2 \<and> (2::nat) < length [''line1'', ''line2'', ''line3'']
   \<and> (2::nat) \<le> length ([''line1'', ''line2'', ''line3''] ! 0)
   \<and> (3::nat) \<le> length ([''line1'', ''line2'', ''line3''] ! 2)
   \<and> sliceTextByRange ''line1\<newline>line2\<newline>line3'' (mk_range 0 2 2 3) (Some ''\<newline>'') (Some True)
       = Inr (Rows [''ne1'', ''line2'', ''lin''])
   \<and> sliceTextByRange ''line1\<newline>line2\<newline>line3'' (mk_range 0 2 2 3) (Some ''\<newline>'') (Some False)
       = Inr (Text ''ne1\<newline>line2\<newline>lin'')
   \<and> sliceTextByRange ''line1\<newline>line2\<newline>line3'' (mk_range 0 2 2 3) (Some ''\<newline>'') None
       = Inr (Text ''ne1\<newline>line2\<newline>lin'')"
proof -
  let ?rows = "[''line1'', ''line2'', ''line3'']"
  have rows: "js_split ''line1\<newline>line2\<newline>line3'' (eol_or_default (Some ''\<newline>'')) = ?rows"
    by code_simp
  have h1: "(0::nat) < 2" and h2: "(2::nat) < length ?rows"
    and h3: "(2::nat) \<le> length (?rows ! 0)" and h4: "(3::nat) \<le> length (?rows ! 2)"
    by simp_all
  have sel: "[''ne1'', ''line2'', ''lin'']
      = [drop 2 (?rows ! 0)] @ map (\<lambda>i. ?rows ! i) [Suc 0 ..< 2] @ [take 3 (?rows ! 2)]"
    by code_simp
  have eol: "eol_or_default (Some ''\<newline>'') = ''\<newline>''"
    by (simp add: eol_or_default_def)
  have "sliceTextByRange ''line1\<newline>line2\<newline>line3'' (mk_range 0 2 2 3) (Some ''\<newline>'') (Some True)
       = Inr (Rows [''ne1'', ''line2'', ''lin''])
   \<and> sliceTextByRange ''line1\<newline>line2\<newline>line3'' (mk_range 0 2 2 3) (Some ''\<newline>'') (Some False)
       = Inr (Text ''ne1\<newline>line2\<newline>lin'')
   \<and> sliceTextByRange ''line1\<newline>line2\<newline>line3'' (mk_range 0 2 2 3) (Some ''\<newline>'') None
       = Inr (Text ''ne1\<newline>line2\<newline>lin'')"
    using slice_multi_line [OF rows [symmetric] h1 h2 h3 h4 sel] by (simp add: eol)
  with rows h1 h2 h3 h4 show ?thesis by blast
qed

section \<open>Replacing\<close>

text \<open>
  Claim C9. For a range in bounds within one row, that row becomes its prefix up to
  \<open>start.character\<close>, then \<open>newText\<close>, then its suffix from \<open>end.character\<close>; the rows before
  and after are unchanged, and all rows are joined with \<open>eol\<close> again.
\<close>

theorem replace_single_line:
  assumes "rows = js_split text (eol_or_default eol)"
    and "l < length rows" and "sc \<le> ec" and "ec \<le> length (rows ! l)"
  shows "replaceTextByRange text (mk_range (int l) (int sc) (int l) (int ec)) newText eol
    = Inr (js_join (eol_or_default eol)
        (take l rows @ [take sc (rows ! l) @ newText @ drop ec (rows ! l)] @ drop (Suc l) rows))"
  using assms
  by (simp add: replaceTextByRange_def Let_def js_index_nat js_slice_upto_nat
      js_slice_from_nat js_slice_lines_after)

theorem replace_single_line_witness:
  "js_split ''hello world'' (eol_or_default (Some ''\<newline>'')) = [''hello world'']
   \<and> (0::nat) < length [''hello world''] \<and> (0::nat) \<le> 5
   \<and> (5::nat) \<le> length ([''hello world''] ! 0)
   \<and> replaceTextByRange ''hello world'' (mk_range 0 0 0 5) ''goodbye'' (Some ''\<newline>'')
       = Inr ''goodbye world''"
proof -
  let ?rows = "[''hello world'']"
  have rows: "js_split ''hello world'' (eol_or_default (Some ''\<newline>'')) = ?rows"
    by code_simp
  have h1: "(0::nat) < length ?rows" and h2: "(0::nat) \<le> 5"
    and h3: "(5::nat) \<le> length (?rows ! 0)"
    by simp_all
  have "replaceTextByRange ''hello world'' (mk_range 0 0 0 5) ''goodbye'' (Some ''\<newline>'')
       = Inr ''goodbye world''"
    using replace_single_line [OF rows [symmetric] h1 h2 h3, of "''goodbye''"] by simp
  with rows h1 h2 h3 show ?thesis by blast
qed

text \<open>
  Claim C2. For a range with \<open>start.line < end.line\<close> the rows strictly between the two
  lines are to be dropped, the suffix of the end row appended to the merged row without a
  terminator, and the rows after \<open>end.line\<close> kept: deleting \<open>(0,1)\<close> to \<open>(2,2)\<close> from
  \<open>"abc\ndef\nghi"\<close> is to give \<open>"ai"\<close>. The function keeps the rows between the two lines,
  joins the suffix of the end row as a row of its own, and ends the result there: it
  returns \<open>"a\ndef\ni"\<close>, and on \<open>"abc\ndef\nghi\njkl"\<close> the row \<open>"jkl"\<close> after the range is
  lost.
\<close>

theorem replace_multi_line_keeps_middle_rows:
  "replaceTextByRange ''abc\<newline>def\<newline>ghi'' (mk_range 0 1 2 2) [] (Some ''\<newline>'')
     = Inr ''a\<newline>def\<newline>i''
   \<and> replaceTextByRange ''abc\<newline>def\<newline>ghi\<newline>jkl'' (mk_range 0 1 2 2) [] (Some ''\<newline>'')
     = Inr ''a\<newline>def\<newline>i''"
  by code_simp

text \<open>
  Claim C6. Replacing the empty range at a position in bounds by the empty string gives
  the buffer back.
\<close>

theorem replace_empty_range_by_empty_text:
  assumes "rows = js_split text (eol_or_default eol)"
    and "l < length rows" and "c \<le> length (rows ! l)"
  shows "replaceTextByRange text (mk_range (int l) (int c) (int l) (int c)) [] eol = Inr text"
proof -
  have "take l rows @ [rows ! l] @ drop (Suc l) rows = rows"
    using assms(2) by (simp add: id_take_nth_drop [symmetric])
  then show ?thesis
    using assms join_split [of "eol_or_default eol" "text"]
    by (simp add: replaceTextByRange_def Let_def js_index_nat js_slice_upto_nat
      js_slice_from_nat js_slice_lines_after)
qed

theorem replace_empty_range_by_empty_text_witness:
  "js_split ''ab\<newline>cd'' (eol_or_default None) = [''ab'', ''cd'']
   \<and> (1::nat) < length [''ab'', ''cd''] \<and> (1::nat) \<le> length ([''ab'', ''cd''] ! 1)
   \<and> replaceTextByRange ''ab\<newline>cd'' (mk_range 1 1 1 1) [] None = Inr ''ab\<newline>cd''"
proof -
  let ?rows = "[''ab'', ''cd'']"
  have rows: "js_split ''ab\<newline>cd'' (eol_or_default None) = ?rows"
    by code_simp
  have h1: "(1::nat) < length ?rows" and h2: "(1::nat) \<le> length (?rows ! 1)"
    by simp_all
  have "replaceTextByRange ''ab\<newline>cd'' (mk_range 1 1 1 1) [] None = Inr ''ab\<newline>cd''"
    using replace_empty_range_by_empty_text [OF rows [symmetric] h1 h2] by simp
  with rows h1 h2 show ?thesis by blast
qed

text \<open>
  Claim C5. Replacing a non-empty range in bounds by its own slice is to give the buffer
  back. Within one row the slice runs to the end of the row, so the rest of the row is
  doubled; over several rows the rows between the two lines are doubled and the
  terminator before the suffix of the end row is kept.
\<close>

theorem replace_by_own_slice_changes_buffer:
  "sliceTextByRange ''hello world'' (mk_range 0 0 0 5) (Some ''\<newline>'') None
      = Inr (Text ''hello world'')
   \<and> replaceTextByRange ''hello world'' (mk_range 0 0 0 5) ''hello world'' (Some ''\<newline>'')
      = Inr ''hello world world''
   \<and> sliceTextByRange ''abc\<newline>def\<newline>ghi'' (mk_range 0 1 2 2) (Some ''\<newline>'') None
      = Inr (Text ''bc\<newline>def\<newline>gh'')
   \<and> replaceTextByRange ''abc\<newline>def\<newline>ghi'' (mk_range 0 1 2 2) ''bc\<newline>def\<newline>gh''
        (Some ''\<newline>'')
      = Inr ''abc\<newline>def\<newline>gh\<newline>def\<newline>i''"
  by code_simp

text \<open>
  Claim C10. Split on a terminator, the empty buffer is one empty row, so the range from
  \<open>(0,0)\<close> to \<open>(0,0)\<close> addresses it: its slice is the empty string (the one empty row with
  \<open>returnRows\<close>), and replacing it by \<open>newText\<close> gives \<open>newText\<close>.
\<close>

theorem empty_buffer_has_one_row:
  assumes "is_EOL (eol_or_default eol)"
  shows "js_split [] (eol_or_default eol) = [[]]
    \<and> sliceTextByRange [] (mk_range 0 0 0 0) eol None = Inr (Text [])
    \<and> sliceTextByRange [] (mk_range 0 0 0 0) eol (Some False) = Inr (Text [])
    \<and> sliceTextByRange [] (mk_range 0 0 0 0) eol (Some True) = Inr (Rows [[]])
    \<and> replaceTextByRange [] (mk_range 0 0 0 0) newText eol = Inr newText"
  using assms
  by (simp add: is_EOL_def split_empty sliceTextByRange_def replaceTextByRange_def Let_def
      js_index_def js_slice_def relative_index_def)

theorem empty_buffer_has_one_row_witness:
  "is_EOL (eol_or_default (Some [CHR 0x0D, CHR 0x0A]))
   \<and> js_split [] (eol_or_default (Some [CHR 0x0D, CHR 0x0A])) = [[]]
   \<and> sliceTextByRange [] (mk_range 0 0 0 0) (Some [CHR 0x0D, CHR 0x0A]) None = Inr (Text [])
   \<and> sliceTextByRange [] (mk_range 0 0 0 0) (Some [CHR 0x0D, CHR 0x0A]) (Some True)
       = Inr (Rows [[]])
   \<and> replaceTextByRange [] (mk_range 0 0 0 0) ''new'' (Some [CHR 0x0D, CHR 0x0A]) = Inr ''new''"
proof -
  have h: "is_EOL (eol_or_default (Some [CHR 0x0D, CHR 0x0A]))"
    by (simp add: is_EOL_def eol_or_default_def)
  show ?thesis
    using h empty_buffer_has_one_row [OF h, of "''new''"] by blast
qed

section \<open>Indices out of bounds and ranges in the wrong order\<close>

text \<open>
  Claim C3, the statement as written: an index out of bounds makes the operation fail. It
  does not when the index is a character index. A character index beyond the end of its
  row is clamped to the length of the row by \<open>slice\<close>, and a negative one counts from the
  end of the row: the operations return a value.
\<close>

theorem character_out_of_bounds_is_not_rejected:
  "sliceTextByRange ''short'' (mk_range 0 9 0 9) None None = Inr (Text [])
   \<and> replaceTextByRange ''short'' (mk_range 0 9 0 9) ''x'' None = Inr ''shortx''
   \<and> sliceTextByRange ''ab\<newline>cd'' (mk_range 0 0 1 99) None None = Inr (Text ''ab\<newline>cd'')
   \<and> sliceTextByRange ''ab\<newline>cd'' (mk_range 0 (-1) 1 1) None (Some True)
       = Inr (Rows [''b'', ''c''])"
  by code_simp

text \<open>
  Claim C3, as the functions behave: either operation fails exactly when a line index that
  it dereferences addresses no row, that is when \<open>start.line\<close> is outside
  \<open>[0, rowCount - 1]\<close>, or \<open>end.line\<close> is and differs from \<open>start.line\<close>. The failure is the
  \<open>TypeError\<close> of calling \<open>slice\<close> on \<open>undefined\<close>. No character index makes an operation
  fail.
\<close>

theorem fails_iff_line_addresses_no_row:
  assumes "n = int (length (js_split text (eol_or_default eol)))"
  shows "(sliceTextByRange text rng eol returnRows = Inl TypeError \<longleftrightarrow>
            \<not> (0 \<le> line (start rng) \<and> line (start rng) < n)
            \<or> (line (start rng) \<noteq> line (end_pos rng)
                \<and> \<not> (0 \<le> line (end_pos rng) \<and> line (end_pos rng) < n)))
       \<and> (replaceTextByRange text rng newText eol = Inl TypeError \<longleftrightarrow>
            \<not> (0 \<le> line (start rng) \<and> line (start rng) < n)
            \<or> (line (start rng) \<noteq> line (end_pos rng)
                \<and> \<not> (0 \<le> line (end_pos rng) \<and> line (end_pos rng) < n)))"
  using assms
  by (auto simp: sliceTextByRange_def replaceTextByRange_def Let_def js_index_def
      split: option.splits)

theorem fails_iff_line_addresses_no_row_witness:
  "(1::int) = int (length (js_split ''short'' (eol_or_default None)))
   \<and> \<not> (line (start (mk_range 5 0 5 1)) < (1::int))
   \<and> sliceTextByRange ''short'' (mk_range 5 0 5 1) None None = Inl TypeError
   \<and> replaceTextByRange ''short'' (mk_range 5 0 5 1) ''x'' None = Inl TypeError"
proof -
  have n: "(1::int) = int (length (js_split ''short'' (eol_or_default None)))"
    by code_simp
  have l: "\<not> (line (start (mk_range 5 0 5 1)) < (1::int))"
    by simp
  show ?thesis
    using n l fails_iff_line_addresses_no_row [OF n, of "mk_range 5 0 5 1" None "''x''"]
    by blast
qed

text \<open>
  Claim C4, the statement as written: a range whose start is after its end is rejected.
  On a buffer of three rows the range from \<open>(2,0)\<close> to \<open>(1,0)\<close> is accepted by both
  operations.
\<close>

theorem start_after_end_is_not_rejected:
  "sliceTextByRange ''a\<newline>b\<newline>c'' (mk_range 2 0 1 0) (Some ''\<newline>'') None
     = Inr (Text ''c\<newline>'')
   \<and> replaceTextByRange ''a\<newline>b\<newline>c'' (mk_range 2 0 1 0) ''x'' (Some ''\<newline>'')
     = Inr ''a\<newline>b\<newline>x\<newline>b''"
  by code_simp

text \<open>
  Claim C4, as the functions behave: neither operation compares \<open>start\<close> with \<open>end\<close>. A range
  whose start is lexicographically greater than its end goes through the same split and
  slices as any other, and both operations return a value whenever the two line indices
  address rows of the buffer.
\<close>

theorem start_after_end_returns_a_value:
  assumes "n = int (length (js_split text (eol_or_default eol)))"
    and "line (end_pos rng) < line (start rng)
       \<or> (line (end_pos rng) = line (start rng)
           \<and> character (end_pos rng) < character (start rng))"
    and "0 \<le> line (start rng)" and "line (start rng) < n"
    and "0 \<le> line (end_pos rng)" and "line (end_pos rng) < n"
  shows "(\<exists>r. sliceTextByRange text rng eol returnRows = Inr r)
       \<and> (\<exists>s. replaceTextByRange text rng newText eol = Inr s)"
  using assms
  by (auto simp: sliceTextByRange_def replaceTextByRange_def Let_def js_index_def
      split: option.splits)

theorem start_after_end_returns_a_value_witness:
  "(3::int) = int (length (js_split ''a\<newline>b\<newline>c'' (eol_or_default None)))
   \<and> line (end_pos (mk_range 2 0 1 0)) < line (start (mk_range 2 0 1 0))
   \<and> 0 \<le> line (start (mk_range 2 0 1 0)) \<and> line (start (mk_range 2 0 1 0)) < 3
   \<and> 0 \<le> line (end_pos (mk_range 2 0 1 0)) \<and> line (end_pos (mk_range 2 0 1 0)) < 3
   \<and> (\<exists>r. sliceTextByRange ''a\<newline>b\<newline>c'' (mk_range 2 0 1 0) None None = Inr r)
   \<and> (\<exists>s. replaceTextByRange ''a\<newline>b\<newline>c'' (mk_range 2 0 1 0) ''x'' None = Inr s)"
proof -
  let ?r = "mk_range 2 0 1 0"
  have n: "(3::int) = int (length (js_split ''a\<newline>b\<newline>c'' (eol_or_default None)))"
    by code_simp
  have o: "line (end_pos ?r) < line (start ?r)
       \<or> (line (end_pos ?r) = line (start ?r) \<and> character (end_pos ?r) < character (start ?r))"
    by simp
  have h1: "0 \<le> line (start ?r)" and h2: "line (start ?r) < 3"
    and h3: "0 \<le> line (end_pos ?r)" and h4: "line (end_pos ?r) < 3"
    by simp_all
  have o': "line (end_pos ?r) < line (start ?r)"
    by simp
  show ?thesis
    using n o' h1 h2 h3 h4
      start_after_end_returns_a_value [OF n o h1 h2 h3 h4, of None "''x''"]
    by blast
qed

section \<open>The number of rows after a replacement\<close>

text \<open>
  Claim C7, the statement as written: the number of rows changes by the occurrences of
  the terminator in \<open>newText\<close> minus those in the removed span. With the terminator
  \<open>"\r\n"\<close>, inserting \<open>"\n"\<close> after the \<open>"\r"\<close> of the one-row buffer \<open>"x\ry"\<close> removes nothing
  and inserts a text without any occurrence of the terminator, and yet the result
  \<open>"x\r\ny"\<close> has two rows: the terminator is formed across the boundary of the inserted
  text.
\<close>

theorem row_count_changes_at_boundary:
  "replaceTextByRange [CHR ''x'', CHR 0x0D, CHR ''y''] (mk_range 0 2 0 2) [CHR 0x0A]
      (Some [CHR 0x0D, CHR 0x0A]) = Inr [CHR ''x'', CHR 0x0D, CHR 0x0A, CHR ''y'']
   \<and> length (js_split [CHR ''x'', CHR 0x0D, CHR ''y''] [CHR 0x0D, CHR 0x0A]) = 1
   \<and> length (js_split [CHR ''x'', CHR 0x0D, CHR 0x0A, CHR ''y''] [CHR 0x0D, CHR 0x0A]) = 2
   \<and> occurrences [CHR 0x0D, CHR 0x0A] [CHR 0x0A] = 0
   \<and> occurrences [CHR 0x0D, CHR 0x0A] [] = 0"
  by code_simp

text \<open>
  Claim C7, as the function behaves: take a terminator that cannot overlap itself, a range
  in bounds within one row, and a \<open>newText\<close> that forms no occurrence of the terminator
  with the text around it (the terminator is one code unit, or the rebuilt row has as many
  occurrences as \<open>newText\<close>). Then the replacement returns a buffer whose number of rows is
  that of the old buffer plus the occurrences of the terminator in \<open>newText\<close> minus those in
  the removed span, of which there are none: every terminator in \<open>newText\<close> starts a new
  row.
\<close>

theorem row_count_single_line_replace:
  assumes "no_self_overlap (eol_or_default eol)"
    and "rows = js_split text (eol_or_default eol)"
    and "l < length rows" and "sc \<le> ec" and "ec \<le> length (rows ! l)"
    and "removed = take (ec - sc) (drop sc (rows ! l))"
    and "rebuilt = take sc (rows ! l) @ newText @ drop ec (rows ! l)"
    and "length (eol_or_default eol) = 1
       \<or> occurrences (eol_or_default eol) rebuilt = occurrences (eol_or_default eol) newText"
  shows "\<exists>res. replaceTextByRange text (mk_range (int l) (int sc) (int l) (int ec)) newText eol
            = Inr res
          \<and> int (length (js_split res (eol_or_default eol))) = int (length rows)
               + int (occurrences (eol_or_default eol) newText)
               - int (occurrences (eol_or_default eol) removed)
          \<and> occurrences (eol_or_default eol) removed = 0"
proof -
  define E where "E = eol_or_default eol"
  define row where "row = rows ! l"
  define rows' where "rows' = take l rows @ [rebuilt] @ drop (Suc l) rows"
  define res where "res = js_join E rows'"
  have nso: "no_self_overlap E"
    using assms(1) by (simp add: E_def)
  have res: "replaceTextByRange text (mk_range (int l) (int sc) (int l) (int ec)) newText eol
      = Inr res"
    using assms(2-5)
    by (simp add: res_def rows'_def assms(7) E_def replaceTextByRange_def Let_def js_index_nat
        js_slice_upto_nat js_slice_from_nat js_slice_lines_after)
  have zero: "occurrences E r = 0" if "r \<in> set rows" for r
    using that assms(2) rows_without_sep [OF nso] by (simp add: E_def)
  have row0: "occurrences E row = 0"
    unfolding row_def using zero assms(3) by simp
  have rem0: "occurrences E removed = 0"
    unfolding assms(6) row_def [symmetric]
    by (intro occurrences_take_zero occurrences_drop_zero row0)
  have rebuilt: "occurrences E rebuilt = occurrences E newText"
  proof (cases "length E = 1")
    case True
    then obtain c where c: "E = [c]"
      by (cases E) auto
    have "count_list (take sc row) c = 0" "count_list (drop ec row) c = 0"
      using occurrences_take_zero [OF row0, of sc] occurrences_drop_zero [OF row0, of ec]
      by (simp_all add: c occurrences_char)
    then show ?thesis
      by (simp add: c occurrences_char assms(7) row_def)
  next
    case False
    with assms(8) show ?thesis by (simp add: E_def)
  qed
  have before: "(\<Sum>r\<leftarrow>take l rows. occurrences E r) = 0"
    unfolding sum_list_eq_0_iff using zero by (auto dest: in_set_takeD)
  have after: "(\<Sum>r\<leftarrow>drop (Suc l) rows. occurrences E r) = 0"
    unfolding sum_list_eq_0_iff using zero by (auto dest: in_set_dropD)
  have len: "length rows' = length rows"
    unfolding rows'_def using assms(3) by simp
  have "(\<Sum>r\<leftarrow>rows'. occurrences E r) = occurrences E newText"
    unfolding rows'_def using before after rebuilt by simp
  then have "occurrences E res = occurrences E newText + (length rows - 1)"
    unfolding res_def occurrences_join [OF nso] len by simp
  then have "length (js_split res E) = length rows + occurrences E newText"
    using assms(3) by (simp add: length_split_occurrences [OF nso])
  with res rem0 show ?thesis
    by (simp add: E_def)
qed

theorem row_count_single_line_replace_witness:
  "no_self_overlap (eol_or_default (Some [CHR 0x0D, CHR 0x0A]))
   \<and> js_split [CHR ''a'', CHR ''b'', CHR 0x0D, CHR 0x0A, CHR ''c'', CHR ''d'']
        (eol_or_default (Some [CHR 0x0D, CHR 0x0A])) = [''ab'', ''cd'']
   \<and> (0::nat) < length [''ab'', ''cd''] \<and> (1::nat) \<le> 2
   \<and> (2::nat) \<le> length ([''ab'', ''cd''] ! 0)
   \<and> take (2 - 1) (drop 1 ([''ab'', ''cd''] ! 0)) = ''b''
   \<and> take 1 ([''ab'', ''cd''] ! 0) @ [CHR ''x'', CHR 0x0D, CHR 0x0A, CHR ''y'']
        @ drop 2 ([''ab'', ''cd''] ! 0) = [CHR ''a'', CHR ''x'', CHR 0x0D, CHR 0x0A, CHR ''y'']
   \<and> occurrences (eol_or_default (Some [CHR 0x0D, CHR 0x0A]))
        [CHR ''a'', CHR ''x'', CHR 0x0D, CHR 0x0A, CHR ''y''] = 1
   \<and> occurrences (eol_or_default (Some [CHR 0x0D, CHR 0x0A]))
        [CHR ''x'', CHR 0x0D, CHR 0x0A, CHR ''y''] = 1
   \<and> (\<exists>res. replaceTextByRange [CHR ''a'', CHR ''b'', CHR 0x0D, CHR 0x0A, CHR ''c'', CHR ''d'']
           (mk_range 0 1 0 2) [CHR ''x'', CHR 0x0D, CHR 0x0A, CHR ''y'']
           (Some [CHR 0x0D, CHR 0x0A]) = Inr res
         \<and> length (js_split res [CHR 0x0D, CHR 0x0A]) = 3)"
proof -
  let ?E = "eol_or_default (Some [CHR 0x0D, CHR 0x0A])"
  let ?rows = "[''ab'', ''cd'']"
  let ?T = "[CHR ''a'', CHR ''b'', CHR 0x0D, CHR 0x0A, CHR ''c'', CHR ''d'']"
  let ?new = "[CHR ''x'', CHR 0x0D, CHR 0x0A, CHR ''y'']"
  let ?u = "[CHR ''a'', CHR ''x'', CHR 0x0D, CHR 0x0A, CHR ''y'']"
  have E: "?E = [CHR 0x0D, CHR 0x0A]"
    by (simp add: eol_or_default_def)
  have nso: "no_self_overlap ?E"
    by code_simp
  have rows: "js_split ?T ?E = ?rows"
    by code_simp
  have h1: "(0::nat) < length ?rows" and h2: "(1::nat) \<le> 2"
    and h3: "(2::nat) \<le> length (?rows ! 0)"
    by simp_all
  have rem: "take (2 - 1) (drop 1 (?rows ! 0)) = ''b''"
    by simp
  have u: "take 1 (?rows ! 0) @ ?new @ drop 2 (?rows ! 0) = ?u"
    by simp
  have ku: "occurrences ?E ?u = 1"
    by code_simp
  have k: "occurrences ?E ?new = 1"
    by code_simp
  have m: "occurrences ?E ''b'' = 0"
    by code_simp
  have b: "length ?E = 1 \<or> occurrences ?E ?u = occurrences ?E ?new"
    using ku k by simp
  have "\<exists>res. replaceTextByRange ?T (mk_range 0 1 0 2) ?new (Some [CHR 0x0D, CHR 0x0A]) = Inr res
         \<and> length (js_split res [CHR 0x0D, CHR 0x0A]) = 3"
    using row_count_single_line_replace [OF nso rows [symmetric] h1 h2 h3 rem [symmetric]
        u [symmetric] b]
    by (simp add: k m E)
  with nso rows h1 h2 h3 rem u ku k show ?thesis by blast
qed

end
